theory Spec2Isabelle
  imports Complex_Main
begin

section \<open>Data model of the database service\<close>

text \<open>
  The TypeScript types of \<^verbatim>\<open>database-service-single-instance.ts\<close>.
  \<^verbatim>\<open>QueryParams = string | number | boolean | Date | null\<close> is a tagged value;
  numbers and dates are kept as integers (the examples only use integral numbers, and
  no function below computes with a parameter value).
\<close>

datatype query_params =
    PString string
  | PNumber int
  | PBoolean bool
  | PDate int
  | PNull

text \<open>
  The \<^verbatim>\<open>value\<close> field of a condition is \<^verbatim>\<open>QueryParams | QueryParams[]\<close>.
  The parameter array is declared \<^verbatim>\<open>QueryParams[]\<close>, but the source pushes
  \<^verbatim>\<open>condition.value as QueryParams\<close> into it, a cast that is not checked at run time:
  an element of the parameter array is therefore whatever a \<^verbatim>\<open>value\<close> field can hold.
\<close>

datatype cond_value =
    Scalar query_params
  | Array "query_params list"

datatype sort_order = ASC | DESC

datatype where_operator =
    OpEq | OpNe | OpGt | OpLt | OpGe | OpLe | OpLike | OpIn | OpIsNull | OpIsNotNull

datatype logic_kw = LogicAND | LogicOR

record where_condition =
  field :: string
  operator :: where_operator
  cvalue :: cond_value

text \<open>\<^verbatim>\<open>WhereOptions\<close>: a flat list of conditions under one keyword.\<close>

record where_options =
  wo_conditions :: "where_condition list"
  wo_logic :: logic_kw

text \<open>
  \<^verbatim>\<open>ConditionGroup\<close>: \<^verbatim>\<open>conditions: (WhereCondition | ConditionGroup)[]\<close> and
  \<^verbatim>\<open>logic\<close>. An item is told apart by \<^verbatim>\<open>'field' in item\<close>.
\<close>

datatype item =
    Cond where_condition
  | Grp condition_group
and condition_group =
    ConditionGroup (conditions: "item list") (logic: logic_kw)

record pagination_options =
  page :: int
  limit :: int

text \<open>
  \<^verbatim>\<open>Record<string, QueryParams>\<close> and \<^verbatim>\<open>SortOptions\<close>: the entries of the object
  in the order \<^verbatim>\<open>Object.keys\<close> lists them (an object has each key once).
\<close>

type_synonym record_map = "(string \<times> query_params) list"
type_synonym sort_options = "(string \<times> sort_order) list"

section \<open>Text of keywords and numbers\<close>

fun operator_text :: "where_operator \<Rightarrow> string" where
  "operator_text OpEq = ''=''"
| "operator_text OpNe = ''!=''"
| "operator_text OpGt = ''>''"
| "operator_text OpLt = ''<''"
| "operator_text OpGe = ''>=''"
| "operator_text OpLe = ''<=''"
| "operator_text OpLike = ''LIKE''"
| "operator_text OpIn = ''IN''"
| "operator_text OpIsNull = ''IS NULL''"
| "operator_text OpIsNotNull = ''IS NOT NULL''"

fun logic_text :: "logic_kw \<Rightarrow> string" where
  "logic_text LogicAND = ''AND''"
| "logic_text LogicOR = ''OR''"

fun sort_order_text :: "sort_order \<Rightarrow> string" where
  "sort_order_text ASC = ''ASC''"
| "sort_order_text DESC = ''DESC''"

definition digit_char :: "nat \<Rightarrow> char" where
  "digit_char d = ''0123456789'' ! d"

definition is_digit :: "char \<Rightarrow> bool" where
  "is_digit c = (c \<in> set ''0123456789'')"

text \<open>
  The text a template literal gives for a non-negative integral number: its decimal
  digits. Indices are natural numbers here; a JavaScript number is exact on them
  below \<open>2 ^ 53\<close>.
\<close>

fun string_of_nat :: "nat \<Rightarrow> string" where
  "string_of_nat n =
     (if n < 10 then [digit_char n]
      else string_of_nat (n div 10) @ [digit_char (n mod 10)])"

declare string_of_nat.simps [simp del]

definition string_of_int :: "int \<Rightarrow> string" where
  "string_of_int i =
     (if i < 0 then CHR ''-'' # string_of_nat (nat (- i)) else string_of_nat (nat i))"

text \<open>\<^verbatim>\<open>Array.prototype.join\<close> on an array of strings.\<close>

fun join :: "string \<Rightarrow> string list \<Rightarrow> string" where
  "join sep [] = []"
| "join sep [x] = x"
| "join sep (x # y # ys) = x @ sep @ join sep (y # ys)"

definition placeholder :: "nat \<Rightarrow> string" where
  "placeholder i = CHR ''$'' # string_of_nat i"

section \<open>The recursive WHERE clause builder\<close>

text \<open>
  The callback of \<^verbatim>\<open>condition.value.map(() => ...)\<close> in \<^verbatim>\<open>buildWhereClause\<close>: it
  runs once for each element of the array, takes no argument, pushes
  \<^verbatim>\<open>condition.value\<close> (the whole field) and returns the next placeholder. The state
  is the parameter array and the running index; the result collects the placeholders.
\<close>

fun in_placeholders :: "query_params list \<Rightarrow> cond_value \<Rightarrow> cond_value list \<Rightarrow> nat
    \<Rightarrow> string list \<times> cond_value list \<times> nat" where
  "in_placeholders [] v vals paramIndex = ([], vals, paramIndex)"
| "in_placeholders (x # xs) v vals paramIndex =
     (case in_placeholders xs v (vals @ [v]) (paramIndex + 1) of
        (ps, vals', paramIndex') \<Rightarrow> (placeholder paramIndex # ps, vals', paramIndex'))"

text \<open>\<^verbatim>\<open>Array.isArray\<close>, and the elements of a value that is an array.\<close>

fun isArray :: "cond_value \<Rightarrow> bool" where
  "isArray (Array xs) = True"
| "isArray (Scalar x) = False"

fun elements :: "cond_value \<Rightarrow> query_params list" where
  "elements (Array xs) = xs"
| "elements (Scalar x) = []"

text \<open>
  The branch \<^verbatim>\<open>if ('field' in item)\<close> of the loop body: the clause pushed for one
  condition, the parameter array and the running index after it.
\<close>

definition compile_condition :: "where_condition \<Rightarrow> cond_value list \<Rightarrow> nat
    \<Rightarrow> string \<times> cond_value list \<times> nat" where
  "compile_condition c vals paramIndex =
     (if operator c = OpIsNull \<or> operator c = OpIsNotNull then
        (field c @ '' '' @ operator_text (operator c), vals, paramIndex)
      else if operator c = OpIn \<and> isArray (cvalue c) then
        (case in_placeholders (elements (cvalue c)) (cvalue c) vals paramIndex of
           (ps, vals', paramIndex') \<Rightarrow>
             (field c @ '' IN ('' @ join '', '' ps @ '')'', vals', paramIndex'))
      else
        (field c @ '' '' @ operator_text (operator c) @ '' '' @ placeholder paramIndex,
         vals @ [cvalue c], paramIndex + 1))"

text \<open>
  \<^verbatim>\<open>buildWhereClause(group, values, paramIndex)\<close> returns the clause text and mutates
  \<^verbatim>\<open>values\<close>; the model returns the text with the array after the call.
  \<^verbatim>\<open>paramIndex\<close> is a number, passed by value: the increments of a nested call stay in
  the nested call, and the loop goes on with its own index. \<open>build_items\<close> is the
  \<^verbatim>\<open>for\<close> loop, with the local \<^verbatim>\<open>clauses\<close>, the array and the index as state.
\<close>

fun buildWhereClause :: "condition_group \<Rightarrow> cond_value list \<Rightarrow> nat \<Rightarrow> string \<times> cond_value list"
and build_items :: "item list \<Rightarrow> string list \<Rightarrow> cond_value list \<Rightarrow> nat
    \<Rightarrow> string list \<times> cond_value list \<times> nat" where
  "buildWhereClause (ConditionGroup its lg) vals paramIndex =
     (case build_items its [] vals paramIndex of
        (clauses, vals', paramIndex') \<Rightarrow>
          (join ('' '' @ logic_text lg @ '' '') clauses, vals'))"
| "build_items [] clauses vals paramIndex = (clauses, vals, paramIndex)"
| "build_items (Cond c # rest) clauses vals paramIndex =
     (case compile_condition c vals paramIndex of
        (clause, vals', paramIndex') \<Rightarrow>
          build_items rest (clauses @ [clause]) vals' paramIndex')"
| "build_items (Grp g # rest) clauses vals paramIndex =
     (case buildWhereClause g vals paramIndex of
        (text, vals') \<Rightarrow>
          build_items rest (clauses @ [''('' @ text @ '')'']) vals' paramIndex)"

section \<open>The flat WHERE builder of the other methods\<close>

text \<open>
  \<^verbatim>\<open>findAllWithPagination\<close> (for its count), \<^verbatim>\<open>bulkUpdate\<close> and \<^verbatim>\<open>bulkDelete\<close>
  each carry the same \<^verbatim>\<open>whereOptions.conditions.map(condition => ...)\<close>. Its
  \<^verbatim>\<open>IN\<close> callback is \<^verbatim>\<open>(val) => { values.push(val); return `$${paramIndex++}` }\<close>:
  it pushes the element.
\<close>

fun in_placeholders_flat :: "query_params list \<Rightarrow> cond_value list \<Rightarrow> nat
    \<Rightarrow> string list \<times> cond_value list \<times> nat" where
  "in_placeholders_flat [] vals paramIndex = ([], vals, paramIndex)"
| "in_placeholders_flat (x # xs) vals paramIndex =
     (case in_placeholders_flat xs (vals @ [Scalar x]) (paramIndex + 1) of
        (ps, vals', paramIndex') \<Rightarrow> (placeholder paramIndex # ps, vals', paramIndex'))"

definition flat_condition :: "where_condition \<Rightarrow> cond_value list \<Rightarrow> nat
    \<Rightarrow> string \<times> cond_value list \<times> nat" where
  "flat_condition c vals paramIndex =
     (if operator c = OpIsNull \<or> operator c = OpIsNotNull then
        (field c @ '' '' @ operator_text (operator c), vals, paramIndex)
      else if operator c = OpIn \<and> isArray (cvalue c) then
        (case in_placeholders_flat (elements (cvalue c)) vals paramIndex of
           (ps, vals', paramIndex') \<Rightarrow>
             (field c @ '' IN ('' @ join '', '' ps @ '')'', vals', paramIndex'))
      else
        (field c @ '' '' @ operator_text (operator c) @ '' '' @ placeholder paramIndex,
         vals @ [cvalue c], paramIndex + 1))"

fun flat_conditions :: "where_condition list \<Rightarrow> cond_value list \<Rightarrow> nat
    \<Rightarrow> string list \<times> cond_value list \<times> nat" where
  "flat_conditions [] vals paramIndex = ([], vals, paramIndex)"
| "flat_conditions (c # cs) vals paramIndex =
     (case flat_condition c vals paramIndex of
        (clause, vals1, paramIndex1) \<Rightarrow>
          (case flat_conditions cs vals1 paramIndex1 of
             (clauses, vals2, paramIndex2) \<Rightarrow> (clause # clauses, vals2, paramIndex2)))"

text \<open>
  The legacy equality conditions:
  \<^verbatim>\<open>Object.keys(conditions).map((key) => { values.push(conditions[key]); return `${key} = $${paramIndex++}` })\<close>.
\<close>

fun legacy_conditions :: "record_map \<Rightarrow> cond_value list \<Rightarrow> nat
    \<Rightarrow> string list \<times> cond_value list \<times> nat" where
  "legacy_conditions [] vals paramIndex = ([], vals, paramIndex)"
| "legacy_conditions ((key, v) # kvs) vals paramIndex =
     (case legacy_conditions kvs (vals @ [Scalar v]) (paramIndex + 1) of
        (clauses, vals', paramIndex') \<Rightarrow>
          ((key @ '' = '' @ placeholder paramIndex) # clauses, vals', paramIndex'))"

section \<open>Statements and the database\<close>

text \<open>
  The pool is outside the repository: a database answers a statement and its parameters
  with a result or an error. Of a \<^verbatim>\<open>QueryResult\<close> only \<^verbatim>\<open>rows\<close> and \<^verbatim>\<open>command\<close>
  are used; a row lists its columns with the text of their values. The private method
  \<^verbatim>\<open>query\<close> prints the statement and its parameters, runs them and passes the result or
  the error on: the model keeps what it printed as the trace of the statements executed.
\<close>

datatype error = DatabaseError string | TypeError

type_synonym row = "(string \<times> string) list"

record query_result =
  rows :: "row list"
  command :: string

type_synonym database = "string \<Rightarrow> cond_value list \<Rightarrow> error + query_result"

type_synonym trace = "(string \<times> cond_value list) list"

definition query :: "database \<Rightarrow> trace \<Rightarrow> string \<Rightarrow> cond_value list
    \<Rightarrow> trace \<times> (error + query_result)" where
  "query db tr sql params = (tr @ [(sql, params)], db sql params)"

text \<open>
  \<^verbatim>\<open>findAllCustom\<close>, up to its last line: the statement and the parameters it hands to
  \<^verbatim>\<open>query\<close>. The arguments \<^verbatim>\<open>sortOptions\<close> and \<^verbatim>\<open>whereOptions\<close> are optional.
\<close>

definition sort_clause :: "sort_options option \<Rightarrow> string" where
  "sort_clause sortOptions =
     (case sortOptions of
        None \<Rightarrow> []
      | Some so \<Rightarrow>
          (if length so > 0 then
             '' ORDER BY '' @ join '', '' (map (\<lambda>(f, order). f @ '' '' @ sort_order_text order) so)
           else []))"

definition findAllCustom_stmt :: "string \<Rightarrow> record_map \<Rightarrow> sort_options option
    \<Rightarrow> condition_group option \<Rightarrow> string \<times> cond_value list" where
  "findAllCustom_stmt tableName conds sortOptions whereOptions =
     (let sql = ''SELECT * FROM '' @ tableName;
          (sql, vals) =
            (if whereOptions \<noteq> None \<and> length (conditions (the whereOptions)) > 0 then
               (case buildWhereClause (the whereOptions) [] 1 of
                  (text, vals) \<Rightarrow> (sql @ '' WHERE '' @ text, vals))
             else if length conds > 0 then
               (case legacy_conditions conds [] 1 of
                  (whereClauses, vals, paramIndex) \<Rightarrow>
                    (sql @ '' WHERE '' @ join '' AND '' whereClauses, vals))
             else (sql, []))
      in (sql @ sort_clause sortOptions, vals))"

definition findAllCustom :: "database \<Rightarrow> trace \<Rightarrow> string \<Rightarrow> record_map \<Rightarrow> sort_options option
    \<Rightarrow> condition_group option \<Rightarrow> trace \<times> (error + query_result)" where
  "findAllCustom db tr tableName conds sortOptions whereOptions =
     (case findAllCustom_stmt tableName conds sortOptions whereOptions of
        (sql, vals) \<Rightarrow> query db tr sql vals)"

section \<open>Pagination\<close>

text \<open>
  JavaScript numbers as far as \<^verbatim>\<open>findAllWithPagination\<close> computes with them: an
  integer, \<^verbatim>\<open>NaN\<close> or an infinity. \<^verbatim>\<open>page\<close> and \<^verbatim>\<open>limit\<close> are integers, and
  integers are exact (no rounding of the quotient is modelled).
\<close>

datatype js_number = Num int | NaN | PosInfinity | NegInfinity

definition is_space :: "char \<Rightarrow> bool" where
  "is_space c = (c \<in> set [CHR '' '', CHR 0x09, CHR 0x0A, CHR 0x0B, CHR 0x0C, CHR 0x0D])"

definition digit_value :: "char \<Rightarrow> nat" where
  "digit_value c = of_char c - 48"

fun nat_of_digits :: "string \<Rightarrow> nat \<Rightarrow> nat" where
  "nat_of_digits [] acc = acc"
| "nat_of_digits (c # cs) acc = nat_of_digits cs (10 * acc + digit_value c)"

text \<open>
  \<^verbatim>\<open>parseInt(s, 10)\<close>: leading white space is skipped, a sign is read, then the
  longest run of decimal digits; with no digit there the result is \<^verbatim>\<open>NaN\<close>.
\<close>

definition parseInt :: "string \<Rightarrow> js_number" where
  "parseInt s =
     (let s1 = dropWhile is_space s;
          neg = (s1 \<noteq> [] \<and> hd s1 = CHR ''-'');
          s2 = (if s1 \<noteq> [] \<and> (hd s1 = CHR ''-'' \<or> hd s1 = CHR ''+'') then tl s1 else s1);
          ds = takeWhile is_digit s2
      in if ds = [] then NaN
         else Num ((if neg then - 1 else 1) * int (nat_of_digits ds 0)))"

text \<open>
  \<^verbatim>\<open>countResult.rows[0].count\<close>: reading a property of \<^verbatim>\<open>rows[0]\<close> throws a
  \<^verbatim>\<open>TypeError\<close> when there is no row; a row without the column gives \<^verbatim>\<open>undefined\<close>,
  which \<^verbatim>\<open>parseInt\<close> reads as the text \<^verbatim>\<open>undefined\<close>.
\<close>

definition count_cell :: "query_result \<Rightarrow> error + string" where
  "count_cell r =
     (case rows r of
        [] \<Rightarrow> Inl TypeError
      | row0 # _ \<Rightarrow>
          (case map_of row0 ''count'' of
             None \<Rightarrow> Inr ''undefined''
           | Some s \<Rightarrow> Inr s))"

text \<open>\<^verbatim>\<open>Math.ceil(totalItems / limit)\<close>.\<close>

definition ceil_div :: "js_number \<Rightarrow> int \<Rightarrow> js_number" where
  "ceil_div totalItems lmt =
     (case totalItems of
        NaN \<Rightarrow> NaN
      | Num n \<Rightarrow>
          (if lmt = 0 then (if n = 0 then NaN else if 0 < n then PosInfinity else NegInfinity)
           else Num \<lceil>real_of_int n / real_of_int lmt\<rceil>)
      | PosInfinity \<Rightarrow> (if lmt < 0 then NegInfinity else PosInfinity)
      | NegInfinity \<Rightarrow> (if lmt < 0 then PosInfinity else NegInfinity))"

record pagination =
  pg_page :: int
  pg_limit :: int
  totalItems :: js_number
  totalPages :: js_number

record paginated =
  data :: query_result
  pagination :: pagination

text \<open>
  A \<^verbatim>\<open>WhereOptions\<close> object handed to \<^verbatim>\<open>findAllCustom\<close> is read there as a
  \<^verbatim>\<open>ConditionGroup\<close>: every item has a \<^verbatim>\<open>field\<close>.
\<close>

definition as_group :: "where_options \<Rightarrow> condition_group" where
  "as_group wo = ConditionGroup (map Cond (wo_conditions wo)) (wo_logic wo)"

definition count_stmt :: "string \<Rightarrow> record_map \<Rightarrow> where_options option
    \<Rightarrow> string \<times> cond_value list" where
  "count_stmt tableName conds whereOptions =
     (let countSql = ''SELECT COUNT(*) FROM '' @ tableName
      in if whereOptions \<noteq> None \<and> length (wo_conditions (the whereOptions)) > 0 then
           (case flat_conditions (wo_conditions (the whereOptions)) [] 1 of
              (whereClauses, vals, paramIndex) \<Rightarrow>
                (countSql @ '' WHERE ''
                   @ join ('' '' @ logic_text (wo_logic (the whereOptions)) @ '' '') whereClauses,
                 vals))
         else if length conds > 0 then
           (case legacy_conditions conds [] 1 of
              (whereClauses, vals, paramIndex) \<Rightarrow>
                (countSql @ '' WHERE '' @ join '' AND '' whereClauses, vals))
         else (countSql, []))"

definition findAllWithPagination :: "database \<Rightarrow> trace \<Rightarrow> string \<Rightarrow> pagination_options
    \<Rightarrow> record_map \<Rightarrow> sort_options option \<Rightarrow> where_options option
    \<Rightarrow> trace \<times> (error + paginated)" where
  "findAllWithPagination db tr tableName paginationOptions conds sortOptions whereOptions =
     (case count_stmt tableName conds whereOptions of
        (countSql, vals) \<Rightarrow>
          (case query db tr countSql vals of
             (tr1, Inl e) \<Rightarrow> (tr1, Inl e)
           | (tr1, Inr countResult) \<Rightarrow>
               (case count_cell countResult of
                  Inl e \<Rightarrow> (tr1, Inl e)
                | Inr cell \<Rightarrow>
                    (let total = parseInt cell;
                         pages = ceil_div total (limit paginationOptions);
                         offset = (page paginationOptions - 1) * limit paginationOptions
                     in (case findAllCustom db tr1 tableName conds sortOptions
                                (map_option as_group whereOptions) of
                           (tr2, Inl e) \<Rightarrow> (tr2, Inl e)
                         | (tr2, Inr dataSql) \<Rightarrow>
                             (tr2,
                              Inr \<lparr>data = dataSql\<lparr>command := command dataSql @ '' LIMIT ''
                                       @ string_of_int (limit paginationOptions) @ '' OFFSET ''
                                       @ string_of_int offset\<rparr>,
                                   pagination = \<lparr>pg_page = page paginationOptions,
                                                 pg_limit = limit paginationOptions,
                                                 totalItems = total,
                                                 totalPages = pages\<rparr>\<rparr>))))))"

section \<open>Reading placeholders in a clause text\<close>

text \<open>
  A positional placeholder in a text is a \<open>$\<close> directly followed by a decimal digit;
  its index is the number the digits after the \<open>$\<close> spell. \<open>count_placeholders\<close>
  counts the occurrences, \<open>placeholder_indices\<close> lists the indices from left to right
  (the second argument is the index being read, if any).
\<close>

fun count_placeholders :: "string \<Rightarrow> nat" where
  "count_placeholders (c # d # cs) =
     (if c = CHR ''$'' \<and> is_digit d then 1 else 0) + count_placeholders (d # cs)"
| "count_placeholders cs = 0"

fun scan_indices :: "string \<Rightarrow> nat option \<Rightarrow> nat list" where
  "scan_indices [] None = []"
| "scan_indices [] (Some n) = [n]"
| "scan_indices (c # cs) (Some n) =
     (if is_digit c then scan_indices cs (Some (10 * n + digit_value c))
      else if c = CHR ''$'' \<and> cs \<noteq> [] \<and> is_digit (hd cs) then n # scan_indices cs (Some 0)
      else n # scan_indices cs None)"
| "scan_indices (c # cs) None =
     (if c = CHR ''$'' \<and> cs \<noteq> [] \<and> is_digit (hd cs) then scan_indices cs (Some 0)
      else scan_indices cs None)"

definition placeholder_indices :: "string \<Rightarrow> nat list" where
  "placeholder_indices s = scan_indices s None"

text \<open>The conditions of a tree, depth first.\<close>

fun group_conditions :: "condition_group \<Rightarrow> where_condition list"
and items_conditions :: "item list \<Rightarrow> where_condition list" where
  "group_conditions (ConditionGroup its lg) = items_conditions its"
| "items_conditions [] = []"
| "items_conditions (Cond c # rest) = c # items_conditions rest"
| "items_conditions (Grp g # rest) = group_conditions g @ items_conditions rest"

text \<open>
  A tree has plain fields when no field name of it holds a \<open>$\<close> directly followed
  by a digit, that is, when no field name reads as a placeholder.
\<close>

definition plain_fields :: "condition_group \<Rightarrow> bool" where
  "plain_fields g = list_all (\<lambda>c. count_placeholders (field c) = 0) (group_conditions g)"

section \<open>The queries documented in the source\<close>

text \<open>
  The source file closes with two calls of \<^verbatim>\<open>findAllCustom\<close> on nested groups, each
  under a comment that gives the condition it is meant to express:
  \<^verbatim>\<open>(status = 'active' AND age >= 18) OR (department = 'IT' AND experience >= 5)\<close> and
  \<^verbatim>\<open>(status = 'active' AND (role = 'admin' OR role = 'manager')) OR (department = 'IT' AND created_at > '2023-01-01')\<close>.
  The date is its time in milliseconds.
\<close>

definition nested_example :: condition_group where
  "nested_example =
     ConditionGroup
       [Grp (ConditionGroup
          [Cond \<lparr>field = ''status'', operator = OpEq, cvalue = Scalar (PString ''active'')\<rparr>,
           Cond \<lparr>field = ''age'', operator = OpGe, cvalue = Scalar (PNumber 18)\<rparr>] LogicAND),
        Grp (ConditionGroup
          [Cond \<lparr>field = ''department'', operator = OpEq, cvalue = Scalar (PString ''IT'')\<rparr>,
           Cond \<lparr>field = ''experience'', operator = OpGe, cvalue = Scalar (PNumber 5)\<rparr>] LogicAND)]
       LogicOR"

definition complex_example :: condition_group where
  "complex_example =
     ConditionGroup
       [Grp (ConditionGroup
          [Cond \<lparr>field = ''status'', operator = OpEq, cvalue = Scalar (PString ''active'')\<rparr>,
           Grp (ConditionGroup
             [Cond \<lparr>field = ''role'', operator = OpEq, cvalue = Scalar (PString ''admin'')\<rparr>,
              Cond \<lparr>field = ''role'', operator = OpEq, cvalue = Scalar (PString ''manager'')\<rparr>]
             LogicOR)] LogicAND),
        Grp (ConditionGroup
          [Cond \<lparr>field = ''department'', operator = OpEq, cvalue = Scalar (PString ''IT'')\<rparr>,
           Cond \<lparr>field = ''created_at'', operator = OpGt, cvalue = Scalar (PDate 1672531200000)\<rparr>]
          LogicAND)]
       LogicOR"

text \<open>
  The documented call of \<^verbatim>\<open>findAllWithPagination\<close>, with a database that answers every
  statement with one row whose \<^verbatim>\<open>count\<close> column reads 42.
\<close>

definition paginated_example_db :: database where
  "paginated_example_db sql params = Inr \<lparr>rows = [[(''count'', ''42'')]], command = ''SELECT''\<rparr>"

definition paginated_example_where :: where_options where
  "paginated_example_where =
     \<lparr>wo_conditions =
        [\<lparr>field = ''department'', operator = OpEq, cvalue = Scalar (PString ''IT'')\<rparr>,
         \<lparr>field = ''is_admin'', operator = OpEq, cvalue = Scalar (PBoolean True)\<rparr>],
      wo_logic = LogicOR\<rparr>"

section \<open>Evaluation and decimal digits\<close>

lemmas eval_simps = compile_condition_def flat_condition_def placeholder_def digit_char_def
  placeholder_indices_def is_digit_def digit_value_def string_of_nat.simps

lemma string_of_nat_small: "n < 10 \<Longrightarrow> string_of_nat n = [digit_char n]"
  by (subst string_of_nat.simps) simp

lemma string_of_nat_large:
  "\<not> n < 10 \<Longrightarrow> string_of_nat n = string_of_nat (n div 10) @ [digit_char (n mod 10)]"
  by (subst string_of_nat.simps) simp

lemma is_digit_digit_char: "d < 10 \<Longrightarrow> is_digit (digit_char d)"
proof -
  assume "d < 10"
  then have "d \<in> set [0..<10]" by simp
  then show ?thesis
    unfolding is_digit_def digit_char_def
    by (auto simp add: upt_rec)
qed

lemma string_of_nat_digits: "\<forall>c \<in> set (string_of_nat n). is_digit c"
proof (induction n rule: string_of_nat.induct)
  case (1 n)
  show ?case
  proof (cases "n < 10")
    case True
    then show ?thesis by (simp add: string_of_nat_small is_digit_digit_char)
  next
    case False
    then show ?thesis
      using 1 by (simp add: string_of_nat_large is_digit_digit_char)
  qed
qed

lemma string_of_nat_nonempty: "string_of_nat n \<noteq> []"
  by (cases "n < 10") (simp_all add: string_of_nat_small string_of_nat_large)

lemma dollar_not_digit: "\<not> is_digit CHR ''$''"
  by (simp add: is_digit_def)

lemma punctuation_not_digit:
  "\<not> is_digit CHR '' ''" "\<not> is_digit CHR ''(''" "\<not> is_digit CHR '')''" "\<not> is_digit CHR '',''"
  by (simp_all add: is_digit_def)

section \<open>What the loops compute\<close>

lemma in_placeholders_eq:
  "in_placeholders xs v vals i
     = (map placeholder [i..<i + length xs], vals @ replicate (length xs) v, i + length xs)"
proof (induction xs arbitrary: vals i)
  case Nil
  then show ?case by simp
next
  case (Cons x xs)
  have "[i..<i + length (x # xs)] = i # [Suc i..<Suc i + length xs]"
    by (simp add: upt_rec)
  then show ?case
    by (simp add: Cons.IH replicate_append_same)
qed

lemma in_placeholders_flat_eq:
  "in_placeholders_flat xs vals i
     = (map placeholder [i..<i + length xs], vals @ map Scalar xs, i + length xs)"
proof (induction xs arbitrary: vals i)
  case Nil
  then show ?case by simp
next
  case (Cons x xs)
  have "[i..<i + length (x # xs)] = i # [Suc i..<Suc i + length xs]"
    by (simp add: upt_rec)
  then show ?case
    by (simp add: Cons.IH)
qed

lemma legacy_conditions_eq:
  "legacy_conditions kvs vals i
     = (map (\<lambda>((key, v), j). key @ '' = '' @ placeholder j) (zip kvs [i..<i + length kvs]),
        vals @ map (\<lambda>(key, v). Scalar v) kvs, i + length kvs)"
proof (induction kvs arbitrary: vals i)
  case Nil
  then show ?case by simp
next
  case (Cons kv kvs)
  obtain key v where kv: "kv = (key, v)" by (cases kv)
  have "[i..<i + length (kv # kvs)] = i # [Suc i..<Suc i + length kvs]"
    by (simp add: upt_rec)
  then show ?case
    by (simp add: kv Cons.IH)
qed

text \<open>
  The text and the index after a condition do not depend on the array it is given, and
  the array is only extended. The same holds for a whole group and for the loop.
\<close>

lemma compile_condition_frame:
  "compile_condition c vals i
     = (fst (compile_condition c [] i), vals @ fst (snd (compile_condition c [] i)),
        snd (snd (compile_condition c [] i)))"
  by (simp add: compile_condition_def in_placeholders_eq)

lemma build_frame_all:
  "\<And>v. buildWhereClause g v i
     = (fst (buildWhereClause g [] i), v @ snd (buildWhereClause g [] i))"
  "\<And>cl v. build_items its cl v i
     = (cl @ fst (build_items its [] [] i),
        v @ fst (snd (build_items its [] [] i)),
        snd (snd (build_items its [] [] i)))"
proof (induction g "vals :: cond_value list" i and its "clauses :: string list"
    "vals :: cond_value list" i rule: buildWhereClause_build_items.induct)
  case (1 its lg vals paramIndex)
  obtain X Y j where b: "build_items its [] [] paramIndex = (X, Y, j)"
    by (cases "build_items its [] [] paramIndex")
  have "build_items its [] v paramIndex = (X, v @ Y, j)"
    using "1.IH" [of "[]" v] by (simp add: b)
  then show ?case by (simp add: b)
next
  case (2 clauses vals paramIndex)
  show ?case by simp
next
  case (3 c rest clauses vals paramIndex)
  obtain t Y j where c0: "compile_condition c [] paramIndex = (t, Y, j)"
    by (cases "compile_condition c [] paramIndex")
  have c1: "compile_condition c w paramIndex = (t, w @ Y, j)" for w
    using compile_condition_frame [of c w paramIndex] by (simp add: c0)
  obtain X Z k where r0: "build_items rest [] [] j = (X, Z, k)"
    by (cases "build_items rest [] [] j")
  have r1: "build_items rest cl' w j = (cl' @ X, w @ Z, k)" for cl' w
    using "3.IH" [OF c1 [of vals, symmetric] refl, of cl' w] by (simp add: r0)
  show ?case
    by (simp add: c0 c1 r1)
next
  case (4 g rest clauses vals paramIndex)
  obtain t Y where g0: "buildWhereClause g [] paramIndex = (t, Y)"
    by (cases "buildWhereClause g [] paramIndex")
  have g1: "buildWhereClause g w paramIndex = (t, w @ Y)" for w
    using "4.IH"(1) [of w] by (simp add: g0)
  obtain X Z k where r0: "build_items rest [] [] paramIndex = (X, Z, k)"
    by (cases "build_items rest [] [] paramIndex")
  have r1: "build_items rest cl' w paramIndex = (cl' @ X, w @ Z, k)" for cl' w
    using "4.IH"(2) [OF g1 [of vals, symmetric], of cl' w] by (simp add: r0)
  show ?case
    by (simp add: g0 g1 r1)
qed

section \<open>Counting placeholders\<close>

lemma count_placeholders_append:
  "count_placeholders (xs @ ys)
     = count_placeholders xs + count_placeholders ys
       + (if xs \<noteq> [] \<and> last xs = CHR ''$'' \<and> ys \<noteq> [] \<and> is_digit (hd ys) then 1 else 0)"
proof (induction xs rule: induct_list012)
  case 1
  then show ?case by simp
next
  case (2 c)
  then show ?case by (cases ys) simp_all
next
  case (3 c d cs)
  then show ?case by simp
qed

lemma count_placeholders_Cons:
  "count_placeholders (c # s)
     = (if c = CHR ''$'' \<and> s \<noteq> [] \<and> is_digit (hd s) then 1 else 0) + count_placeholders s"
  by (cases s) simp_all

lemma no_dollar_count: "CHR ''$'' \<notin> set s \<Longrightarrow> count_placeholders s = 0"
  by (induction s rule: count_placeholders.induct) auto

lemma count_placeholder: "count_placeholders (placeholder i) = 1"
proof -
  obtain d ds where ds: "string_of_nat i = d # ds"
    using string_of_nat_nonempty [of i] by (cases "string_of_nat i") auto
  have dig: "\<forall>c \<in> set (d # ds). is_digit c"
    using string_of_nat_digits [of i] by (simp add: ds)
  then have "CHR ''$'' \<notin> set (d # ds)"
    using dollar_not_digit by blast
  then have "count_placeholders (d # ds) = 0"
    by (rule no_dollar_count)
  with dig show ?thesis
    by (simp add: placeholder_def ds)
qed

lemma placeholder_ends: "placeholder i \<noteq> []" "hd (placeholder i) = CHR ''$''"
  "is_digit (last (placeholder i))"
  using string_of_nat_digits [of i] string_of_nat_nonempty [of i]
  by (simp_all add: placeholder_def)

lemma count_placeholders_list:
  "sum_list (map (count_placeholders \<circ> placeholder) js) = length js"
  by (induction js) (simp_all add: count_placeholder)

text \<open>
  Joining adds no placeholder when the separator holds none, does not start with a
  digit and does not end with \<open>$\<close>.
\<close>

lemma count_join:
  assumes "sep \<noteq> []" and "\<not> is_digit (hd sep)" and "last sep \<noteq> CHR ''$''"
    and "count_placeholders sep = 0"
  shows "count_placeholders (join sep xs) = sum_list (map count_placeholders xs)"
proof (induction xs rule: induct_list012)
  case 1
  then show ?case by simp
next
  case (2 x)
  then show ?case by simp
next
  case (3 x y ys)
  have "count_placeholders (x @ sep @ join sep (y # ys))
          = count_placeholders x + count_placeholders (join sep (y # ys))"
    using assms by (simp add: count_placeholders_append)
  then show ?case using 3 by simp
qed

lemma count_operator_text: "count_placeholders (operator_text op) = 0"
  by (cases op) simp_all

lemma operator_text_hd: "\<not> is_digit (hd (operator_text op))" "operator_text op \<noteq> []"
  "last (operator_text op) \<noteq> CHR ''$''"
  by (cases op; simp add: is_digit_def)+

lemma logic_sep:
  "'' '' @ logic_text lg @ '' '' \<noteq> []"
  "\<not> is_digit (hd ('' '' @ logic_text lg @ '' ''))"
  "last ('' '' @ logic_text lg @ '' '') \<noteq> CHR ''$''"
  "count_placeholders ('' '' @ logic_text lg @ '' '') = 0"
  by (cases lg; simp add: punctuation_not_digit)+

lemma count_compile_condition:
  assumes "count_placeholders (field c) = 0"
  shows "count_placeholders (fst (compile_condition c [] i))
           = length (fst (snd (compile_condition c [] i)))"
proof -
  consider (null) "operator c = OpIsNull \<or> operator c = OpIsNotNull"
    | (inlist) "\<not> (operator c = OpIsNull \<or> operator c = OpIsNotNull)"
        "operator c = OpIn \<and> isArray (cvalue c)"
    | (other) "\<not> (operator c = OpIsNull \<or> operator c = OpIsNotNull)"
        "\<not> (operator c = OpIn \<and> isArray (cvalue c))"
    by blast
  then show ?thesis
  proof cases
    case null
    then show ?thesis
      using assms
      by (simp add: compile_condition_def count_placeholders_append count_placeholders_Cons
          count_operator_text operator_text_hd punctuation_not_digit)
  next
    case inlist
    have j: "count_placeholders (join '', '' (map placeholder [i..<i + n])) = n" for n
      by (subst count_join) (simp_all add: punctuation_not_digit count_placeholders_list)
    show ?thesis
      using assms inlist
      by (simp add: compile_condition_def in_placeholders_eq count_placeholders_append
          count_placeholders_Cons j punctuation_not_digit)
  next
    case other
    then have "compile_condition c [] i
        = (field c @ '' '' @ operator_text (operator c) @ '' '' @ placeholder i, [cvalue c], i + 1)"
      by (auto simp add: compile_condition_def)
    then show ?thesis
      using assms
      by (simp add: count_placeholders_append count_placeholders_Cons
          count_operator_text operator_text_hd count_placeholder placeholder_ends dollar_not_digit
          punctuation_not_digit)
  qed
qed

lemma build_count:
  "list_all (\<lambda>c. count_placeholders (field c) = 0) (group_conditions g) \<Longrightarrow>
     count_placeholders (fst (buildWhereClause g [] i)) = length (snd (buildWhereClause g [] i))"
  "list_all (\<lambda>c. count_placeholders (field c) = 0) (items_conditions its) \<Longrightarrow>
     sum_list (map count_placeholders (fst (build_items its [] [] i)))
       = length (fst (snd (build_items its [] [] i)))"
proof (induction g "vals :: cond_value list" i and its "clauses :: string list"
    "vals :: cond_value list" i rule: buildWhereClause_build_items.induct)
  case (1 its lg vals paramIndex)
  obtain X Y j where b: "build_items its [] [] paramIndex = (X, Y, j)"
    by (cases "build_items its [] [] paramIndex")
  from "1.IH" "1.prems" have "sum_list (map count_placeholders X) = length Y"
    by (simp add: b)
  moreover have "count_placeholders (join ('' '' @ logic_text lg @ '' '') X)
      = sum_list (map count_placeholders X)"
    by (rule count_join [OF logic_sep])
  ultimately show ?case
    by (simp add: b)
next
  case (2 clauses vals paramIndex)
  show ?case by simp
next
  case (3 c rest clauses vals paramIndex)
  obtain t Y j where c0: "compile_condition c [] paramIndex = (t, Y, j)"
    by (cases "compile_condition c [] paramIndex")
  have c1: "compile_condition c vals paramIndex = (t, vals @ Y, j)"
    using compile_condition_frame [of c vals paramIndex] by (simp add: c0)
  obtain X Z k where r0: "build_items rest [] [] j = (X, Z, k)"
    by (cases "build_items rest [] [] j")
  have r1: "build_items rest [t] Y j = ([t] @ X, Y @ Z, k)"
    using build_frame_all(2) [of rest "[t]" Y j] by (simp add: r0)
  have ct: "count_placeholders t = length Y"
    using count_compile_condition [of c paramIndex] "3.prems" by (simp add: c0)
  have "sum_list (map count_placeholders X) = length Z"
    using "3.IH" [OF c1 [symmetric] refl] "3.prems" by (simp add: r0)
  then show ?case
    by (simp add: c0 r1 ct)
next
  case (4 g rest clauses vals paramIndex)
  obtain t Y where g0: "buildWhereClause g [] paramIndex = (t, Y)"
    by (cases "buildWhereClause g [] paramIndex")
  have g1: "buildWhereClause g vals paramIndex = (t, vals @ Y)"
    using build_frame_all(1) [of g vals paramIndex] by (simp add: g0)
  obtain X Z k where r0: "build_items rest [] [] paramIndex = (X, Z, k)"
    by (cases "build_items rest [] [] paramIndex")
  have r1: "build_items rest [''('' @ t @ '')''] Y paramIndex = ([''('' @ t @ '')''] @ X, Y @ Z, k)"
    using build_frame_all(2) [of rest "[''('' @ t @ '')'']" Y paramIndex] by (simp add: r0)
  have ct: "count_placeholders t = length Y"
    using "4.IH"(1) "4.prems" by (simp add: g0)
  have cr: "sum_list (map count_placeholders X) = length Z"
    using "4.IH"(2) [OF g1 [symmetric]] "4.prems" by (simp add: r0)
  have "count_placeholders (''('' @ t @ '')'') = count_placeholders t"
    by (simp add: count_placeholders_append count_placeholders_Cons punctuation_not_digit)
  then show ?case
    using ct cr r1 by (simp add: g0)
qed

lemma ceil_div_Num:
  "lmt \<noteq> 0 \<Longrightarrow> ceil_div (Num n) lmt = Num \<lceil>real_of_int n / real_of_int lmt\<rceil>"
  by (simp add: ceil_div_def)

section \<open>The claims\<close>

subsection \<open>C1: numbering across nested groups\<close>

text \<open>
  C1 states that the placeholder indices in the clause text of \<^verbatim>\<open>buildWhereClause\<close>
  increase strictly from left to right, starting at the start index, and that after a
  nested group its parent goes on from the index the nested group reached. The source
  does not do this: the index is passed to the nested call by value, so the parent goes
  on from the index it had before the nested group. On the second query documented in
  the source, compiled from index 1, five parameters are appended but the indices in
  the text read 1, 2, 3, 1, 2: \<^verbatim>\<open>department\<close> is compared with parameter 1, which is
  \<^verbatim>\<open>'active'\<close>, where the comment above the call says \<^verbatim>\<open>department = 'IT'\<close>.
\<close>

theorem complex_example_indices:
  "buildWhereClause complex_example [] 1
     = (''(status = $1 AND (role = $2 OR role = $3)) OR (department = $1 AND created_at > $2)'',
        [Scalar (PString ''active''), Scalar (PString ''admin''), Scalar (PString ''manager''),
         Scalar (PString ''IT''), Scalar (PDate 1672531200000)])
   \<and> placeholder_indices (fst (buildWhereClause complex_example [] 1)) = [1, 2, 3, 1, 2]
   \<and> \<not> sorted_wrt (<) (placeholder_indices (fst (buildWhereClause complex_example [] 1)))"
  by (simp add: complex_example_def eval_simps)

subsection \<open>C2: the parameters of \<^verbatim>\<open>IN\<close>\<close>

text \<open>
  What \<^verbatim>\<open>buildWhereClause\<close> does with an \<^verbatim>\<open>IN\<close> condition on an array of \<open>n\<close>
  elements: \<open>n\<close> consecutive placeholders, joined in \<^verbatim>\<open>field IN (...)\<close>, and \<open>n\<close>
  copies of the whole array appended. The flat builder appends the elements.
\<close>

lemma compile_condition_in_array:
  assumes "operator c = OpIn" and "cvalue c = Array xs"
  shows "compile_condition c vals i
           = (field c @ '' IN ('' @ join '', '' (map placeholder [i..<i + length xs]) @ '')'',
              vals @ replicate (length xs) (Array xs), i + length xs)"
  using assms by (simp add: compile_condition_def in_placeholders_eq)

lemma flat_condition_in_array:
  assumes "operator c = OpIn" and "cvalue c = Array xs"
  shows "flat_condition c vals i
           = (field c @ '' IN ('' @ join '', '' (map placeholder [i..<i + length xs]) @ '')'',
              vals @ map Scalar xs, i + length xs)"
  using assms by (simp add: flat_condition_def in_placeholders_flat_eq)

text \<open>
  C2 states that an \<^verbatim>\<open>IN\<close> condition on a sequence of \<open>n\<close> values allocates \<open>n\<close>
  consecutive placeholders, appends each element in order and emits
  \<^verbatim>\<open>field IN (p1, p2, ...)\<close>, so that \<^verbatim>\<open>role IN ['admin', 'manager']\<close> alone from
  index 1 gives \<^verbatim>\<open>role IN ($1, $2)\<close> with the parameters \<^verbatim>\<open>['admin', 'manager']\<close>.
  The text is as stated, the parameters are not: \<^verbatim>\<open>buildWhereClause\<close> appends the
  whole array twice. The same condition in the builder of \<^verbatim>\<open>bulkUpdate\<close>,
  \<^verbatim>\<open>bulkDelete\<close> and the count of \<^verbatim>\<open>findAllWithPagination\<close> appends the two elements.
\<close>

theorem in_pushes_whole_array:
  "buildWhereClause
     (ConditionGroup [Cond \<lparr>field = ''role'', operator = OpIn,
                           cvalue = Array [PString ''admin'', PString ''manager'']\<rparr>] LogicAND) [] 1
   = (''role IN ($1, $2)'',
      [Array [PString ''admin'', PString ''manager''], Array [PString ''admin'', PString ''manager'']])
   \<and> flat_condition \<lparr>field = ''role'', operator = OpIn,
                      cvalue = Array [PString ''admin'', PString ''manager'']\<rparr> [] 1
   = (''role IN ($1, $2)'', [Scalar (PString ''admin''), Scalar (PString ''manager'')], 3)"
  by (simp add: eval_simps)

subsection \<open>C3: the two-level example\<close>

text \<open>
  C3 states that the first query documented in the source, compiled from index 1,
  gives \<^verbatim>\<open>(status = $1 AND age >= $2) OR (department = $3 AND experience >= $4)\<close> with
  the parameters \<^verbatim>\<open>['active', 18, 'IT', 5]\<close>. The parameters and the parentheses are
  as stated; the second group is numbered from 1 again, for the reason given at C1.
  \<^verbatim>\<open>findAllCustom\<close> hands this text to the database as it is.
\<close>

theorem nested_example_restarts:
  "buildWhereClause nested_example [] 1
     = (''(status = $1 AND age >= $2) OR (department = $1 AND experience >= $2)'',
        [Scalar (PString ''active''), Scalar (PNumber 18), Scalar (PString ''IT''), Scalar (PNumber 5)])
   \<and> fst (buildWhereClause nested_example [] 1)
     \<noteq> ''(status = $1 AND age >= $2) OR (department = $3 AND experience >= $4)''
   \<and> findAllCustom_stmt ''users'' [] (Some [(''name'', ASC)]) (Some nested_example)
     = (''SELECT * FROM users WHERE (status = $1 AND age >= $2) OR (department = $1 AND experience >= $2) ORDER BY name ASC'',
        [Scalar (PString ''active''), Scalar (PNumber 18), Scalar (PString ''IT''), Scalar (PNumber 5)])"
  by (simp add: nested_example_def findAllCustom_stmt_def sort_clause_def eval_simps)

subsection \<open>C4: \<^verbatim>\<open>IN\<close> with a value that is not an array\<close>

text \<open>
  C4 states that a condition with operator \<^verbatim>\<open>IN\<close> and a value that is not a sequence is
  rejected before any text is generated. \<^verbatim>\<open>buildWhereClause\<close> has no \<^verbatim>\<open>throw\<close>; the
  test \<^verbatim>\<open>condition.operator === 'IN' && Array.isArray(condition.value)\<close> sends such a
  condition to the last branch. For \<^verbatim>\<open>role IN 'admin'\<close> it returns the text
  \<^verbatim>\<open>role IN $1\<close> and appends \<^verbatim>\<open>'admin'\<close>.
\<close>

theorem in_scalar_not_rejected:
  "buildWhereClause
     (ConditionGroup [Cond \<lparr>field = ''role'', operator = OpIn, cvalue = Scalar (PString ''admin'')\<rparr>]
        LogicAND) [] 1
   = (''role IN $1'', [Scalar (PString ''admin'')])"
  by (simp add: eval_simps)

text \<open>
  C4 as the source has it: a condition with operator \<^verbatim>\<open>IN\<close> whose value is not an
  array is compiled as a comparison with one value. It takes one placeholder, appends
  the value and gives \<^verbatim>\<open>field IN placeholder\<close>, alone in a group as well.
\<close>

theorem in_scalar_generic:
  assumes "operator c = OpIn" and "\<not> isArray (cvalue c)"
  shows "compile_condition c vals paramIndex
           = (field c @ '' IN '' @ placeholder paramIndex, vals @ [cvalue c], paramIndex + 1)
       \<and> buildWhereClause (ConditionGroup [Cond c] lg) vals paramIndex
           = (field c @ '' IN '' @ placeholder paramIndex, vals @ [cvalue c])"
  using assms by (simp add: compile_condition_def)

theorem in_scalar_generic_witness:
  "operator \<lparr>field = ''role'', operator = OpIn, cvalue = Scalar (PString ''admin'')\<rparr> = OpIn
   \<and> \<not> isArray (cvalue \<lparr>field = ''role'', operator = OpIn, cvalue = Scalar (PString ''admin'')\<rparr>)
   \<and> compile_condition \<lparr>field = ''role'', operator = OpIn, cvalue = Scalar (PString ''admin'')\<rparr> [] 1
        = (''role IN $1'', [Scalar (PString ''admin'')], 2)"
  using in_scalar_generic [of "\<lparr>field = ''role'', operator = OpIn, cvalue = Scalar (PString ''admin'')\<rparr>"
      "[]" 1 LogicAND]
  by (simp add: placeholder_def digit_char_def string_of_nat.simps)

subsection \<open>C5: as many placeholders as parameters\<close>

text \<open>
  C5 states that, for every tree, the clause text holds as many placeholders as the call
  appends parameters. Field names go into the text as they are, so a field name that
  reads as a placeholder is counted too: the group with the one condition
  \<^verbatim>\<open>$1 IS NULL\<close> gives a text with one placeholder and appends nothing.
\<close>

theorem placeholder_count_dollar_field:
  "buildWhereClause
     (ConditionGroup [Cond \<lparr>field = ''$1'', operator = OpIsNull, cvalue = Scalar PNull\<rparr>] LogicAND)
     [] 1
   = (''$1 IS NULL'', [])
   \<and> count_placeholders (''$1 IS NULL'') = 1
   \<and> length (snd (buildWhereClause
        (ConditionGroup [Cond \<lparr>field = ''$1'', operator = OpIsNull, cvalue = Scalar PNull\<rparr>] LogicAND)
        [] 1))
     \<noteq> length ([] :: cond_value list)
        + count_placeholders (fst (buildWhereClause
            (ConditionGroup [Cond \<lparr>field = ''$1'', operator = OpIsNull, cvalue = Scalar PNull\<rparr>]
               LogicAND) [] 1))"
  by (simp add: eval_simps)

text \<open>
  C5 for trees with plain fields: when no field name of the tree holds a \<open>$\<close> directly
  followed by a digit, then for every array \<^verbatim>\<open>values\<close> and every start index the
  number of elements the call appends is the number of placeholders in the clause text
  it returns.
\<close>

theorem placeholder_count_plain_fields:
  assumes "plain_fields g"
  shows "length (snd (buildWhereClause g vals paramIndex))
           = length vals + count_placeholders (fst (buildWhereClause g vals paramIndex))"
proof -
  have "buildWhereClause g vals paramIndex
          = (fst (buildWhereClause g [] paramIndex), vals @ snd (buildWhereClause g [] paramIndex))"
    by (rule build_frame_all(1))
  then show ?thesis
    using build_count(1) [of g paramIndex] assms by (simp add: plain_fields_def)
qed

theorem placeholder_count_plain_fields_witness:
  "plain_fields
     (ConditionGroup
        [Cond \<lparr>field = ''role'', operator = OpIn,
               cvalue = Array [PString ''admin'', PString ''manager'']\<rparr>,
         Cond \<lparr>field = ''deleted_at'', operator = OpIsNull, cvalue = Scalar PNull\<rparr>,
         Grp (ConditionGroup
           [Cond \<lparr>field = ''age'', operator = OpGe, cvalue = Scalar (PNumber 18)\<rparr>,
            Cond \<lparr>field = ''status'', operator = OpEq, cvalue = Scalar (PString ''active'')\<rparr>]
           LogicOR)] LogicAND)
   \<and> length (snd (buildWhereClause
        (ConditionGroup
           [Cond \<lparr>field = ''role'', operator = OpIn,
                  cvalue = Array [PString ''admin'', PString ''manager'']\<rparr>,
            Cond \<lparr>field = ''deleted_at'', operator = OpIsNull, cvalue = Scalar PNull\<rparr>,
            Grp (ConditionGroup
              [Cond \<lparr>field = ''age'', operator = OpGe, cvalue = Scalar (PNumber 18)\<rparr>,
               Cond \<lparr>field = ''status'', operator = OpEq, cvalue = Scalar (PString ''active'')\<rparr>]
              LogicOR)] LogicAND) [Scalar (PNumber 7)] 2))
     = 1 + count_placeholders ''role IN ($2, $3) AND deleted_at IS NULL AND (age >= $4 OR status = $5)''"
  using placeholder_count_plain_fields [of
      "ConditionGroup
        [Cond \<lparr>field = ''role'', operator = OpIn,
               cvalue = Array [PString ''admin'', PString ''manager'']\<rparr>,
         Cond \<lparr>field = ''deleted_at'', operator = OpIsNull, cvalue = Scalar PNull\<rparr>,
         Grp (ConditionGroup
           [Cond \<lparr>field = ''age'', operator = OpGe, cvalue = Scalar (PNumber 18)\<rparr>,
            Cond \<lparr>field = ''status'', operator = OpEq, cvalue = Scalar (PString ''active'')\<rparr>]
           LogicOR)] LogicAND" "[Scalar (PNumber 7)]" 2]
  by (simp add: plain_fields_def eval_simps)

subsection \<open>C6: the empty group\<close>


text \<open>
  The loop on an empty group inside another group, for every array and index.
\<close>

lemma nested_empty_group:
  "buildWhereClause (ConditionGroup [Grp (ConditionGroup [] lg')] lg) vals paramIndex
     = (''()'', vals)"
  by simp



subsection \<open>C7: \<^verbatim>\<open>IS NULL\<close> and \<^verbatim>\<open>IS NOT NULL\<close>\<close>

text \<open>
  C7: a condition with operator \<^verbatim>\<open>IS NULL\<close> or \<^verbatim>\<open>IS NOT NULL\<close> gives the text
  \<^verbatim>\<open>field operator\<close>, leaves the running index as it is and appends nothing to the
  parameters: the loop goes on with the same array and the same index, and alone in a
  group the condition gives that text with the array unchanged.
\<close>

theorem isnull_no_parameter:
  assumes "operator c = OpIsNull \<or> operator c = OpIsNotNull"
  shows "compile_condition c vals paramIndex
           = (field c @ '' '' @ operator_text (operator c), vals, paramIndex)
       \<and> build_items (Cond c # rest) clauses vals paramIndex
           = build_items rest (clauses @ [field c @ '' '' @ operator_text (operator c)]) vals paramIndex
       \<and> buildWhereClause (ConditionGroup [Cond c] lg) vals paramIndex
           = (field c @ '' '' @ operator_text (operator c), vals)"
  using assms by (simp add: compile_condition_def)

theorem isnull_no_parameter_witness:
  "(operator \<lparr>field = ''deleted_at'', operator = OpIsNull, cvalue = Scalar PNull\<rparr> = OpIsNull
      \<or> operator \<lparr>field = ''deleted_at'', operator = OpIsNull, cvalue = Scalar PNull\<rparr> = OpIsNotNull)
   \<and> compile_condition \<lparr>field = ''deleted_at'', operator = OpIsNull, cvalue = Scalar PNull\<rparr> [] 1
      = (''deleted_at IS NULL'', [], 1)
   \<and> buildWhereClause
        (ConditionGroup [Cond \<lparr>field = ''deleted_at'', operator = OpIsNull, cvalue = Scalar PNull\<rparr>]
           LogicAND) [] 1
      = (''deleted_at IS NULL'', [])"
  using isnull_no_parameter [of "\<lparr>field = ''deleted_at'', operator = OpIsNull, cvalue = Scalar PNull\<rparr>"
      "[]" 1 "[]" "[]" LogicAND]
  by simp

subsection \<open>C8: pagination is not in the statement\<close>

text \<open>
  C8: when the database answers the count statement with a result that has a row, and
  answers the statement of \<^verbatim>\<open>findAllCustom\<close>, then \<^verbatim>\<open>findAllWithPagination\<close> executes
  exactly these two statements, in this order. The second is the statement
  \<^verbatim>\<open>findAllCustom\<close> builds from the conditions, the sorting and the where options: it
  has no part that depends on the page or the limit. The rows returned are the rows of
  its result; \<^verbatim>\<open>LIMIT limit OFFSET offset\<close> is appended to the \<^verbatim>\<open>command\<close> field of
  that result, with \<open>offset = (page - 1) * limit\<close>. The metadata gives back the page
  and the limit, and \<^verbatim>\<open>totalPages\<close> is \<^verbatim>\<open>Math.ceil(totalItems / limit)\<close>: the ceiling
  of the quotient when the count reads as an integer and the limit is not zero.
\<close>

theorem pagination_not_in_statement:
  assumes "db (fst (count_stmt tableName conds whereOptions))
              (snd (count_stmt tableName conds whereOptions)) = Inr countResult"
    and "count_cell countResult = Inr cell"
    and "db (fst (findAllCustom_stmt tableName conds sortOptions (map_option as_group whereOptions)))
            (snd (findAllCustom_stmt tableName conds sortOptions (map_option as_group whereOptions)))
           = Inr dataResult"
  shows "\<exists>res.
      findAllWithPagination db tr tableName po conds sortOptions whereOptions
        = (tr @ [count_stmt tableName conds whereOptions,
                 findAllCustom_stmt tableName conds sortOptions (map_option as_group whereOptions)],
           Inr res)
      \<and> rows (data res) = rows dataResult
      \<and> command (data res)
          = command dataResult @ '' LIMIT '' @ string_of_int (limit po)
              @ '' OFFSET '' @ string_of_int ((page po - 1) * limit po)
      \<and> pg_page (pagination res) = page po
      \<and> pg_limit (pagination res) = limit po
      \<and> totalItems (pagination res) = parseInt cell
      \<and> totalPages (pagination res) = ceil_div (totalItems (pagination res)) (limit po)
      \<and> (\<forall>n. totalItems (pagination res) = Num n \<and> limit po \<noteq> 0 \<longrightarrow>
             totalPages (pagination res) = Num \<lceil>real_of_int n / real_of_int (limit po)\<rceil>)"
proof -
  obtain csql cvals where cs: "count_stmt tableName conds whereOptions = (csql, cvals)"
    by (cases "count_stmt tableName conds whereOptions")
  obtain dsql dvals where
    ds: "findAllCustom_stmt tableName conds sortOptions (map_option as_group whereOptions) = (dsql, dvals)"
    by (cases "findAllCustom_stmt tableName conds sortOptions (map_option as_group whereOptions)")
  from assms(1) have c: "db csql cvals = Inr countResult" by (simp add: cs)
  from assms(3) have d: "db dsql dvals = Inr dataResult" by (simp add: ds)
  show ?thesis
    by (simp add: findAllWithPagination_def findAllCustom_def query_def cs ds c d assms(2)
        Let_def ceil_div_Num)
qed

theorem pagination_not_in_statement_witness:
  "findAllWithPagination paginated_example_db [] ''users'' \<lparr>page = 2, limit = 10\<rparr> []
      (Some [(''created_at'', DESC)]) (Some paginated_example_where)
   = ([(''SELECT COUNT(*) FROM users WHERE department = $1 OR is_admin = $2'',
        [Scalar (PString ''IT''), Scalar (PBoolean True)]),
       (''SELECT * FROM users WHERE department = $1 OR is_admin = $2 ORDER BY created_at DESC'',
        [Scalar (PString ''IT''), Scalar (PBoolean True)])],
      Inr \<lparr>data = \<lparr>rows = [[(''count'', ''42'')]], command = ''SELECT LIMIT 10 OFFSET 10''\<rparr>,
           pagination = \<lparr>pg_page = 2, pg_limit = 10, totalItems = Num 42, totalPages = Num 5\<rparr>\<rparr>)"
proof -
  let ?r = "\<lparr>rows = [[(''count'', ''42'')]], command = ''SELECT''\<rparr>"
  let ?po = "\<lparr>page = 2, limit = 10\<rparr>"
  have h1: "paginated_example_db (fst (count_stmt ''users'' [] (Some paginated_example_where)))
              (snd (count_stmt ''users'' [] (Some paginated_example_where))) = Inr ?r"
    by (simp add: paginated_example_db_def)
  have h2: "count_cell ?r = Inr ''42''"
    by (simp add: count_cell_def)
  have h3: "paginated_example_db
              (fst (findAllCustom_stmt ''users'' [] (Some [(''created_at'', DESC)])
                     (map_option as_group (Some paginated_example_where))))
              (snd (findAllCustom_stmt ''users'' [] (Some [(''created_at'', DESC)])
                     (map_option as_group (Some paginated_example_where)))) = Inr ?r"
    by (simp add: paginated_example_db_def)
  have cs: "count_stmt ''users'' [] (Some paginated_example_where)
      = (''SELECT COUNT(*) FROM users WHERE department = $1 OR is_admin = $2'',
         [Scalar (PString ''IT''), Scalar (PBoolean True)])"
    by (simp add: count_stmt_def paginated_example_where_def eval_simps)
  have ds: "findAllCustom_stmt ''users'' [] (Some [(''created_at'', DESC)])
               (map_option as_group (Some paginated_example_where))
      = (''SELECT * FROM users WHERE department = $1 OR is_admin = $2 ORDER BY created_at DESC'',
         [Scalar (PString ''IT''), Scalar (PBoolean True)])"
    by (simp add: findAllCustom_stmt_def as_group_def sort_clause_def paginated_example_where_def
        eval_simps)
  have p: "parseInt ''42'' = Num 42"
    by (simp add: parseInt_def is_space_def is_digit_def digit_value_def)
  have si: "string_of_int 10 = ''10''"
    by (simp add: string_of_int_def string_of_nat.simps digit_char_def)
  from pagination_not_in_statement [OF h1 h2 h3, of "[]" ?po]
  obtain res where
    r: "findAllWithPagination paginated_example_db [] ''users'' ?po []
          (Some [(''created_at'', DESC)]) (Some paginated_example_where)
        = ([] @ [count_stmt ''users'' [] (Some paginated_example_where),
                 findAllCustom_stmt ''users'' [] (Some [(''created_at'', DESC)])
                   (map_option as_group (Some paginated_example_where))], Inr res)"
    and "rows (data res) = rows ?r"
    and "command (data res) = command ?r @ '' LIMIT '' @ string_of_int (limit ?po)
              @ '' OFFSET '' @ string_of_int ((page ?po - 1) * limit ?po)"
    and "pg_page (pagination res) = page ?po"
    and "pg_limit (pagination res) = limit ?po"
    and "totalItems (pagination res) = parseInt ''42''"
    and "totalPages (pagination res) = ceil_div (totalItems (pagination res)) (limit ?po)"
    by blast
  then have "res = \<lparr>data = \<lparr>rows = [[(''count'', ''42'')]], command = ''SELECT LIMIT 10 OFFSET 10''\<rparr>,
           pagination = \<lparr>pg_page = 2, pg_limit = 10, totalItems = Num 42, totalPages = Num 5\<rparr>\<rparr>"
    by (cases res) (simp add: p si ceil_div_def)
  with r cs ds show ?thesis by simp
qed

subsection \<open>C9: the call only appends\<close>

text \<open>
  C9: for every tree, every array \<^verbatim>\<open>values\<close> and every start index, the array after
  \<^verbatim>\<open>buildWhereClause\<close> begins with the elements it had before, unchanged and in their
  places, and is at least as long; the text returned and the elements appended are
  those of the call on the empty array. The tree is only read: the function assigns to
  no property of \<^verbatim>\<open>group\<close>, of an item or of a condition, so its model takes the tree
  as a value and returns the text and the array, nothing else. (\<^verbatim>\<open>values\<close> is a fresh
  array at the one call from outside, in \<^verbatim>\<open>findAllCustom\<close>, so it is no array of the
  tree.)
\<close>

theorem values_only_appended:
  "take (length vals) (snd (buildWhereClause g vals paramIndex)) = vals
   \<and> length vals \<le> length (snd (buildWhereClause g vals paramIndex))
   \<and> buildWhereClause g vals paramIndex
       = (fst (buildWhereClause g [] paramIndex), vals @ snd (buildWhereClause g [] paramIndex))"
proof -
  have "buildWhereClause g vals paramIndex
          = (fst (buildWhereClause g [] paramIndex), vals @ snd (buildWhereClause g [] paramIndex))"
    by (rule build_frame_all(1))
  then show ?thesis by simp
qed

subsection \<open>C10: where options with no condition\<close>

text \<open>
  C10: when \<^verbatim>\<open>findAllCustom\<close> is given a \<^verbatim>\<open>whereOptions\<close> group whose conditions list
  is empty, the group is ignored: the call does what it does with no \<^verbatim>\<open>whereOptions\<close>
  at all. The \<^verbatim>\<open>WHERE\<close> clause is built from the legacy conditions when there are
  any (\<^verbatim>\<open>key = $j\<close> for the \<open>j\<close>-th key, joined by \<^verbatim>\<open>AND\<close>, with the values as
  parameters), and the statement has no \<^verbatim>\<open>WHERE\<close> clause and no parameters otherwise.
\<close>

theorem empty_where_options_ignored:
  "findAllCustom db tr tableName conds sortOptions (Some (ConditionGroup [] lg))
     = findAllCustom db tr tableName conds sortOptions None
   \<and> findAllCustom_stmt tableName conds sortOptions (Some (ConditionGroup [] lg))
     = (if length conds > 0 then
          (''SELECT * FROM '' @ tableName @ '' WHERE ''
             @ join '' AND '' (map (\<lambda>((key, v), j). key @ '' = '' @ placeholder j)
                                (zip conds [1..<1 + length conds]))
             @ sort_clause sortOptions,
           map (\<lambda>(key, v). Scalar v) conds)
        else (''SELECT * FROM '' @ tableName @ sort_clause sortOptions, []))"
  by (simp add: findAllCustom_def findAllCustom_stmt_def legacy_conditions_eq)

theorem empty_where_options_ignored_witness:
  "findAllCustom_stmt ''users'' [(''status'', PString ''active''), (''age'', PNumber 30)]
      (Some [(''name'', ASC)]) (Some (ConditionGroup [] LogicOR))
     = (''SELECT * FROM users WHERE status = $1 AND age = $2 ORDER BY name ASC'',
        [Scalar (PString ''active''), Scalar (PNumber 30)])
   \<and> findAllCustom_stmt ''users'' [] None (Some (ConditionGroup [] LogicOR))
     = (''SELECT * FROM users'', [])"
  using empty_where_options_ignored [of _ _ "''users''"
      "[(''status'', PString ''active''), (''age'', PNumber 30)]" "Some [(''name'', ASC)]" LogicOR]
    empty_where_options_ignored [of _ _ "''users''" "[]" None LogicOR]
  by (simp add: sort_clause_def placeholder_def digit_char_def string_of_nat.simps upt_rec)

end
